theory Spec2Isabelle
  imports Main "HOL-Library.Word"
begin

section \<open>Data model of the network interface\<close>

text \<open>
  The embedding follows \<^verbatim>\<open>network_interface.cc\<close>. The headers that declare the frame,
  the ARP message and the members of the class are not among the sources; their shapes
  are taken from the way the code uses them and from the interface section of the
  specification. Members keep their names without the trailing underscore.

  A hardware address is an array of six bytes, a payload a sequence of bytes, an IP
  address the \<^verbatim>\<open>uint32_t\<close> that \<^verbatim>\<open>ipv4_numeric()\<close> yields, and \<^verbatim>\<open>size_t\<close> an unsigned
  64-bit integer, whose arithmetic wraps around.
\<close>

type_synonym EthernetAddress = "8 word list"
type_synonym bytes = "8 word list"
type_synonym ipv4_numeric = "32 word"
type_synonym size_t = "64 word"

text \<open>
  Modelled from the spec: the broadcast hardware-address constant of the missing header
  \<^verbatim>\<open>ethernet_header.hh\<close>, six bytes \<^verbatim>\<open>ff\<close>.
\<close>

definition ETHERNET_BROADCAST :: EthernetAddress where
  "ETHERNET_BROADCAST = [255, 255, 255, 255, 255, 255]"

text \<open>\<^verbatim>\<open>EthernetAddress{0}\<close>: the value-initialised array of six bytes.\<close>

definition ETHERNET_ZERO :: EthernetAddress where
  "ETHERNET_ZERO = [0, 0, 0, 0, 0, 0]"

text \<open>
  Modelled from the spec: the two frame types of the missing header
  \<^verbatim>\<open>ethernet_header.hh\<close> (type = IPv4, type = ARP), as 16-bit values with their
  EtherType numbers. Only their being different is used.
\<close>

definition TYPE_IPv4 :: "16 word" where
  "TYPE_IPv4 = 0x800"

definition TYPE_ARP :: "16 word" where
  "TYPE_ARP = 0x806"

text \<open>
  Modelled from the spec: the two opcodes of the missing header \<^verbatim>\<open>arp_message.hh\<close>
  (opcode REQUEST, opcode REPLY), as 16-bit values with their protocol numbers.
\<close>

definition OPCODE_REQUEST :: "16 word" where
  "OPCODE_REQUEST = 1"

definition OPCODE_REPLY :: "16 word" where
  "OPCODE_REPLY = 2"

text \<open>
  Modelled from the spec: the frame and the ARP message of the missing headers, with the
  fields the specification lists and the code reads and writes.
\<close>

record EthernetHeader =
  dst :: EthernetAddress
  src :: EthernetAddress
  type :: "16 word"

record EthernetFrame =
  header :: EthernetHeader
  payload :: bytes

record ARPMessage =
  opcode :: "16 word"
  sender_ethernet_address :: EthernetAddress
  sender_ip_address :: ipv4_numeric
  target_ethernet_address :: EthernetAddress
  target_ip_address :: ipv4_numeric

text \<open>
  The serialisers and parsers are external collaborators, taken as parameters. A parser
  returns \<open>None\<close> where the source's \<^verbatim>\<open>parse\<close> returns false.
\<close>

record 'd codec =
  serialize_dgram :: "'d \<Rightarrow> bytes"
  parse_dgram :: "bytes \<Rightarrow> 'd option"
  serialize_arp :: "ARPMessage \<Rightarrow> bytes"
  parse_arp :: "bytes \<Rightarrow> ARPMessage option"

text \<open>
  The members of \<^verbatim>\<open>NetworkInterface\<close>, as the code uses them. \<open>arp_table\<close> maps an IP address to the pair
  (time learnt, hardware address); \<open>queue_table\<close> maps an IP address to the pair (time
  of the request, queue of waiting datagrams); a \<^verbatim>\<open>std::queue\<close> is a list whose head
  is the front.
\<close>

record 'd NetworkInterface =
  ethernet_address :: EthernetAddress
  ip_address :: ipv4_numeric
  arp_table :: "ipv4_numeric \<rightharpoonup> size_t \<times> EthernetAddress"
  queue_table :: "ipv4_numeric \<rightharpoonup> size_t \<times> 'd list"
  frame_queue :: "EthernetFrame list"
  curr_time :: size_t

text \<open>
  The constructor stores the two addresses. The other members are initialised in the
  missing header: both tables and the frame queue start empty, and the clock is taken to
  start at zero.
\<close>

definition new_interface :: "EthernetAddress \<Rightarrow> ipv4_numeric \<Rightarrow> 'd NetworkInterface" where
  "new_interface eth ip =
     \<lparr>ethernet_address = eth, ip_address = ip, arp_table = Map.empty,
      queue_table = Map.empty, frame_queue = [], curr_time = 0\<rparr>"

section \<open>Operations\<close>

text \<open>
  \<^verbatim>\<open>queue_table_[k]\<close> is \<^verbatim>\<open>operator[]\<close> of the map: it yields the entry of \<open>k\<close> and,
  when the key is absent, first inserts a value-initialised entry (time 0, empty queue).
  \<open>queue_at\<close> is the entry it yields and \<open>touch\<close> the table it leaves.
\<close>

definition queue_at :: "(ipv4_numeric \<rightharpoonup> size_t \<times> 'd list) \<Rightarrow> ipv4_numeric \<Rightarrow> size_t \<times> 'd list" where
  "queue_at m k = (case m k of None \<Rightarrow> (0, []) | Some e \<Rightarrow> e)"

definition touch :: "(ipv4_numeric \<rightharpoonup> size_t \<times> 'd list) \<Rightarrow> ipv4_numeric \<Rightarrow> (ipv4_numeric \<rightharpoonup> size_t \<times> 'd list)" where
  "touch m k = m(k \<mapsto> queue_at m k)"

text \<open>\<^verbatim>\<open>NetworkInterface::send_datagram\<close>, lines 23 to 68.\<close>

definition send_datagram ::
  "'d codec \<Rightarrow> 'd NetworkInterface \<Rightarrow> 'd \<Rightarrow> ipv4_numeric \<Rightarrow> 'd NetworkInterface" where
  "send_datagram c s dgram next_hop =
     (case arp_table s next_hop of
        Some e \<Rightarrow>
          s\<lparr>frame_queue := frame_queue s @
              [\<lparr>header = \<lparr>dst = snd e, src = ethernet_address s, type = TYPE_IPv4\<rparr>,
                payload = serialize_dgram c dgram\<rparr>]\<rparr>
      | None \<Rightarrow>
          (case queue_table s next_hop of
             Some w \<Rightarrow> s\<lparr>queue_table := (queue_table s)(next_hop \<mapsto> (fst w, snd w @ [dgram]))\<rparr>
           | None \<Rightarrow>
               (let arpmsg = \<lparr>opcode = OPCODE_REQUEST,
                              sender_ethernet_address = ethernet_address s,
                              sender_ip_address = ip_address s,
                              target_ethernet_address = ETHERNET_ZERO,
                              target_ip_address = next_hop\<rparr>;
                    frame = \<lparr>header = \<lparr>dst = ETHERNET_BROADCAST, src = ethernet_address s,
                                         type = TYPE_ARP\<rparr>,
                             payload = serialize_arp c arpmsg\<rparr>;
                    m1 = touch (queue_table s) next_hop;
                    m2 = m1(next_hop \<mapsto> (curr_time s, snd (queue_at m1 next_hop)));
                    m3 = m2(next_hop \<mapsto> (fst (queue_at m2 next_hop), snd (queue_at m2 next_hop) @ [dgram]))
                in s\<lparr>queue_table := m3, frame_queue := frame_queue s @ [frame]\<rparr>)))"

text \<open>
  The loop of \<^verbatim>\<open>recv_frame\<close>, lines 115 to 126: while the queue that
  \<^verbatim>\<open>queue_table_[arpmsg.sender_ip_address]\<close> yields is not empty, push an IPv4 frame
  carrying its front, addressed to \<^verbatim>\<open>arpmsg.sender_ethernet_address\<close>, and pop it.
\<close>

function flush_waiting :: "'d codec \<Rightarrow> ARPMessage \<Rightarrow> 'd NetworkInterface \<Rightarrow> 'd NetworkInterface" where
  "flush_waiting c arpmsg s =
     (if snd (queue_at (queue_table s) (sender_ip_address arpmsg)) = []
      then s\<lparr>queue_table := touch (queue_table s) (sender_ip_address arpmsg)\<rparr>
      else flush_waiting c arpmsg
             (s\<lparr>frame_queue := frame_queue s @
                   [\<lparr>header = \<lparr>dst = sender_ethernet_address arpmsg, src = ethernet_address s,
                                type = TYPE_IPv4\<rparr>,
                     payload = serialize_dgram c
                       (hd (snd (queue_at (queue_table s) (sender_ip_address arpmsg))))\<rparr>],
                 queue_table := (queue_table s)(sender_ip_address arpmsg \<mapsto>
                   (fst (queue_at (queue_table s) (sender_ip_address arpmsg)),
                    tl (snd (queue_at (queue_table s) (sender_ip_address arpmsg)))))\<rparr>))"
  by pat_completeness auto
termination
  by (relation "measure (\<lambda>(c, arpmsg, s).
        length (snd (queue_at (queue_table s) (sender_ip_address arpmsg))))")
     (auto simp: queue_at_def)

declare flush_waiting.simps [simp del]

text \<open>
  Lines 96 to 100: the received message is rewritten in place into the reply. The loop
  after it reads the rewritten message.
\<close>

definition make_reply :: "'d NetworkInterface \<Rightarrow> ARPMessage \<Rightarrow> ARPMessage" where
  "make_reply s arpmsg =
     arpmsg\<lparr>opcode := OPCODE_REPLY,
            target_ethernet_address := sender_ethernet_address arpmsg,
            target_ip_address := sender_ip_address arpmsg,
            sender_ethernet_address := ethernet_address s,
            sender_ip_address := ip_address s\<rparr>"

text \<open>The body of \<^verbatim>\<open>recv_frame\<close> once an ARP message has been parsed, lines 91 to 126.\<close>

definition recv_arp :: "'d codec \<Rightarrow> 'd NetworkInterface \<Rightarrow> ARPMessage \<Rightarrow> 'd NetworkInterface" where
  "recv_arp c s arpmsg =
     (let s1 = s\<lparr>arp_table := (arp_table s)(sender_ip_address arpmsg \<mapsto>
                    (curr_time s, sender_ethernet_address arpmsg))\<rparr>
      in if opcode arpmsg = OPCODE_REQUEST \<and> target_ip_address arpmsg = ip_address s
         then (let arpmsg' = make_reply s arpmsg;
                   result_frame = \<lparr>header = \<lparr>dst = target_ethernet_address arpmsg',
                                               src = ethernet_address s, type = TYPE_ARP\<rparr>,
                                   payload = serialize_arp c arpmsg'\<rparr>
               in flush_waiting c arpmsg' (s1\<lparr>frame_queue := frame_queue s1 @ [result_frame]\<rparr>))
         else flush_waiting c arpmsg s1)"

text \<open>\<^verbatim>\<open>NetworkInterface::recv_frame\<close>, lines 72 to 132: the datagram returned and the state left.\<close>

definition recv_frame ::
  "'d codec \<Rightarrow> 'd NetworkInterface \<Rightarrow> EthernetFrame \<Rightarrow> 'd option \<times> 'd NetworkInterface" where
  "recv_frame c s frame =
     (if dst (header frame) = ethernet_address s \<or> dst (header frame) = ETHERNET_BROADCAST
      then
        if type (header frame) = TYPE_IPv4
        then (case parse_dgram c (payload frame) of
                Some dgram \<Rightarrow> (Some dgram, s)
              | None \<Rightarrow> (None, s))
        else if type (header frame) = TYPE_ARP
        then (case parse_arp c (payload frame) of
                Some arpmsg \<Rightarrow> (None, recv_arp c s arpmsg)
              | None \<Rightarrow> (None, s))
        else (None, s)
      else (None, s))"

text \<open>
  \<^verbatim>\<open>erase_expired_item\<close>, lines 158 to 173. The first loop collects the keys whose time
  difference \<^verbatim>\<open>curr_time_ - map[ip].first\<close> (unsigned, so it wraps) exceeds the expiry
  time; \<open>expired\<close> says whether a key is collected. The second loop erases them.
\<close>

definition expired :: "size_t \<Rightarrow> (ipv4_numeric \<rightharpoonup> size_t \<times> 'v) \<Rightarrow> size_t \<Rightarrow> ipv4_numeric \<Rightarrow> bool" where
  "expired now m expire_time ip =
     (case m ip of None \<Rightarrow> False | Some e \<Rightarrow> expire_time < now - fst e)"

definition erase_expired_item ::
  "size_t \<Rightarrow> (ipv4_numeric \<rightharpoonup> size_t \<times> 'v) \<Rightarrow> size_t \<Rightarrow> (ipv4_numeric \<rightharpoonup> size_t \<times> 'v)" where
  "erase_expired_item now m expire_time =
     (\<lambda>ip. if expired now m expire_time ip then None else m ip)"

text \<open>\<^verbatim>\<open>NetworkInterface::tick\<close>, lines 136 to 144.\<close>

definition tick :: "'d NetworkInterface \<Rightarrow> size_t \<Rightarrow> 'd NetworkInterface" where
  "tick s ms_since_last_tick =
     (let now = curr_time s + ms_since_last_tick
      in s\<lparr>curr_time := now,
           arp_table := erase_expired_item now (arp_table s) 30000,
           queue_table := erase_expired_item now (queue_table s) 5000\<rparr>)"

text \<open>\<^verbatim>\<open>NetworkInterface::maybe_send\<close>, lines 146 to 156.\<close>

definition maybe_send :: "'d NetworkInterface \<Rightarrow> EthernetFrame option \<times> 'd NetworkInterface" where
  "maybe_send s =
     (case frame_queue s of
        [] \<Rightarrow> (None, s)
      | oldest_packet # rest \<Rightarrow> (Some oldest_packet, s\<lparr>frame_queue := rest\<rparr>))"

section \<open>Notions used to state the properties\<close>

text \<open>A run of \<open>tick\<close> calls, one after the other.\<close>

fun ticks :: "'d NetworkInterface \<Rightarrow> size_t list \<Rightarrow> 'd NetworkInterface" where
  "ticks s [] = s"
| "ticks s (ms # rest) = ticks (tick s ms) rest"

text \<open>
  \<open>recv_frame\<close> reaches the ARP branch with the message \<open>arpmsg\<close>: the frame is addressed
  to the interface or to everybody, its type is ARP and its payload parses.
\<close>

definition accepts_arp :: "'d codec \<Rightarrow> 'd NetworkInterface \<Rightarrow> EthernetFrame \<Rightarrow> ARPMessage \<Rightarrow> bool" where
  "accepts_arp c s frame arpmsg \<longleftrightarrow>
     (dst (header frame) = ethernet_address s \<or> dst (header frame) = ETHERNET_BROADCAST)
     \<and> type (header frame) = TYPE_ARP
     \<and> parse_arp c (payload frame) = Some arpmsg"

text \<open>The IPv4 frame that carries a datagram from one hardware address to another.\<close>

abbreviation ipv4_frame :: "'d codec \<Rightarrow> EthernetAddress \<Rightarrow> EthernetAddress \<Rightarrow> 'd \<Rightarrow> EthernetFrame" where
  "ipv4_frame c to_addr from_addr d \<equiv>
     \<lparr>header = \<lparr>dst = to_addr, src = from_addr, type = TYPE_IPv4\<rparr>,
      payload = serialize_dgram c d\<rparr>"

text \<open>The broadcast ARP request that \<open>send_datagram\<close> builds for a next hop.\<close>

abbreviation arp_request_frame :: "'d codec \<Rightarrow> 'd NetworkInterface \<Rightarrow> ipv4_numeric \<Rightarrow> EthernetFrame" where
  "arp_request_frame c s next_hop \<equiv>
     \<lparr>header = \<lparr>dst = ETHERNET_BROADCAST, src = ethernet_address s, type = TYPE_ARP\<rparr>,
      payload = serialize_arp c
        \<lparr>opcode = OPCODE_REQUEST,
         sender_ethernet_address = ethernet_address s,
         sender_ip_address = ip_address s,
         target_ethernet_address = ETHERNET_ZERO,
         target_ip_address = next_hop\<rparr>\<rparr>"

text \<open>The ARP reply that \<open>recv_frame\<close> builds for a request.\<close>

abbreviation arp_reply_frame :: "'d codec \<Rightarrow> 'd NetworkInterface \<Rightarrow> ARPMessage \<Rightarrow> EthernetFrame" where
  "arp_reply_frame c s arpmsg \<equiv>
     \<lparr>header = \<lparr>dst = sender_ethernet_address arpmsg, src = ethernet_address s, type = TYPE_ARP\<rparr>,
      payload = serialize_arp c
        \<lparr>opcode = OPCODE_REPLY,
         sender_ethernet_address = ethernet_address s,
         sender_ip_address = ip_address s,
         target_ethernet_address = sender_ethernet_address arpmsg,
         target_ip_address = sender_ip_address arpmsg\<rparr>\<rparr>"


text \<open>
  The four public methods as events, and a run of events from a state. \<open>elapsed\<close> is the
  time the ticks of a run add up to.
\<close>

datatype 'd event = Send 'd ipv4_numeric | Recv EthernetFrame | Tick size_t | Drain

fun apply_event :: "'d codec \<Rightarrow> 'd NetworkInterface \<Rightarrow> 'd event \<Rightarrow> 'd NetworkInterface" where
  "apply_event c s (Send dgram next_hop) = send_datagram c s dgram next_hop"
| "apply_event c s (Recv frame) = snd (recv_frame c s frame)"
| "apply_event c s (Tick ms) = tick s ms"
| "apply_event c s Drain = snd (maybe_send s)"

fun run :: "'d codec \<Rightarrow> 'd NetworkInterface \<Rightarrow> 'd event list \<Rightarrow> 'd NetworkInterface" where
  "run c s [] = s"
| "run c s (e # es) = run c (apply_event c s e) es"

fun elapsed :: "'d event list \<Rightarrow> nat" where
  "elapsed [] = 0"
| "elapsed (Tick ms # es) = unat ms + elapsed es"
| "elapsed (e # es) = elapsed es"

text \<open>The state with every waiting queue rewritten by \<open>f\<close>, the request times kept.\<close>

definition requeue :: "(ipv4_numeric \<Rightarrow> 'd list \<Rightarrow> 'd list) \<Rightarrow> 'd NetworkInterface \<Rightarrow> 'd NetworkInterface" where
  "requeue f s =
     s\<lparr>queue_table := (\<lambda>k. map_option (\<lambda>e. (fst e, f k (snd e))) (queue_table s k))\<rparr>"


text \<open>No entry of the queue table holds an empty queue.\<close>

definition no_empty_queue :: "'d NetworkInterface \<Rightarrow> bool" where
  "no_empty_queue s \<longleftrightarrow> (\<forall>ip e. queue_table s ip = Some e \<longrightarrow> snd e \<noteq> [])"

text \<open>The request time of the queue-table entry of \<open>ip\<close>, if there is one, is not after the clock.\<close>

definition stamp_ok :: "'d NetworkInterface \<Rightarrow> ipv4_numeric \<Rightarrow> bool" where
  "stamp_ok s ip \<longleftrightarrow> (case queue_table s ip of None \<Rightarrow> True | Some e \<Rightarrow> fst e \<le> curr_time s)"

subsection \<open>Concrete inputs\<close>

text \<open>
  A small wire format to run the operations on: a datagram is its own bytes (the empty
  payload does not parse); an ARP payload is opcode, sender IP and target IP, a byte
  each, then the two hardware addresses of six bytes.
\<close>

definition toy_codec :: "bytes codec" where
  "toy_codec =
     \<lparr>serialize_dgram = (\<lambda>d. d),
      parse_dgram = (\<lambda>b. if b = [] then None else Some b),
      serialize_arp = (\<lambda>m. [ucast (opcode m), ucast (sender_ip_address m), ucast (target_ip_address m)]
                            @ sender_ethernet_address m @ target_ethernet_address m),
      parse_arp = (\<lambda>b. case b of
                      op # sip # tip # rest \<Rightarrow>
                        if length rest = 12
                        then Some \<lparr>opcode = ucast op,
                                   sender_ethernet_address = take 6 rest,
                                   sender_ip_address = ucast sip,
                                   target_ethernet_address = drop 6 rest,
                                   target_ip_address = ucast tip\<rparr>
                        else None
                    | _ \<Rightarrow> None)\<rparr>"

definition eth_a :: EthernetAddress where
  "eth_a = [2, 0, 0, 0, 0, 10]"

definition eth_b :: EthernetAddress where
  "eth_b = [2, 0, 0, 0, 0, 11]"

text \<open>Host A: hardware address \<open>eth_a\<close>, IP address 1, just constructed.\<close>

definition host_a :: "bytes NetworkInterface" where
  "host_a = new_interface eth_a 1"

text \<open>Host B (hardware address \<open>eth_b\<close>, IP address 2) answers A.\<close>

definition reply_msg :: ARPMessage where
  "reply_msg =
     \<lparr>opcode = OPCODE_REPLY, sender_ethernet_address = eth_b, sender_ip_address = 2,
      target_ethernet_address = eth_a, target_ip_address = 1\<rparr>"

definition reply_from_b :: EthernetFrame where
  "reply_from_b =
     \<lparr>header = \<lparr>dst = eth_a, src = eth_b, type = TYPE_ARP\<rparr>,
      payload = serialize_arp toy_codec reply_msg\<rparr>"

text \<open>Host B asks for the hardware address of A.\<close>

definition request_msg :: ARPMessage where
  "request_msg =
     \<lparr>opcode = OPCODE_REQUEST, sender_ethernet_address = eth_b, sender_ip_address = 2,
      target_ethernet_address = ETHERNET_ZERO, target_ip_address = 1\<rparr>"

definition request_from_b :: EthernetFrame where
  "request_from_b =
     \<lparr>header = \<lparr>dst = ETHERNET_BROADCAST, src = eth_b, type = TYPE_ARP\<rparr>,
      payload = serialize_arp toy_codec request_msg\<rparr>"

text \<open>Host B asks for the hardware address of a third host, IP address 3.\<close>

definition request_other_msg :: ARPMessage where
  "request_other_msg =
     \<lparr>opcode = OPCODE_REQUEST, sender_ethernet_address = eth_b, sender_ip_address = 2,
      target_ethernet_address = ETHERNET_ZERO, target_ip_address = 3\<rparr>"

definition request_for_c :: EthernetFrame where
  "request_for_c =
     \<lparr>header = \<lparr>dst = ETHERNET_BROADCAST, src = eth_b, type = TYPE_ARP\<rparr>,
      payload = serialize_arp toy_codec request_other_msg\<rparr>"

text \<open>Host A after two datagrams have been handed to it for IP address 2.\<close>

definition host_a_waiting :: "bytes NetworkInterface" where
  "host_a_waiting = send_datagram toy_codec (send_datagram toy_codec host_a [7] 2) [8] 2"


lemmas toy_defs = toy_codec_def eth_a_def eth_b_def host_a_def new_interface_def
  reply_msg_def reply_from_b_def request_msg_def request_from_b_def
  request_other_msg_def request_for_c_def
  OPCODE_REPLY_def OPCODE_REQUEST_def TYPE_ARP_def TYPE_IPv4_def
  ETHERNET_BROADCAST_def ETHERNET_ZERO_def

section \<open>Facts about the operations\<close>

lemma types_differ: "TYPE_ARP \<noteq> TYPE_IPv4"
  by (simp add: TYPE_ARP_def TYPE_IPv4_def)

lemma queue_at_upd: "queue_at (m(k \<mapsto> e)) k = e"
  by (simp add: queue_at_def)

text \<open>
  The loop as a whole: one IPv4 frame for each waiting datagram, front first, and the
  entry left in the table with its time and an empty queue.
\<close>

lemma flush_waiting_eq:
  "flush_waiting c arpmsg s =
     s\<lparr>frame_queue := frame_queue s @
          map (ipv4_frame c (sender_ethernet_address arpmsg) (ethernet_address s))
              (snd (queue_at (queue_table s) (sender_ip_address arpmsg))),
        queue_table := (queue_table s)(sender_ip_address arpmsg \<mapsto>
          (fst (queue_at (queue_table s) (sender_ip_address arpmsg)), []))\<rparr>"
proof (induction c arpmsg s rule: flush_waiting.induct)
  case (1 c arpmsg s)
  let ?k = "sender_ip_address arpmsg"
  let ?e = "queue_at (queue_table s) ?k"
  show ?case
  proof (cases "snd ?e = []")
    case True
    then have "?e = (fst ?e, [])"
      by (simp add: prod_eq_iff)
    then have "touch (queue_table s) ?k = (queue_table s)(?k \<mapsto> (fst ?e, []))"
      unfolding touch_def by presburger
    with True show ?thesis
      by (subst flush_waiting.simps) simp
  next
    case False
    then obtain d q where dq: "snd ?e = d # q"
      by (cases "snd ?e") auto
    show ?thesis
      by (subst flush_waiting.simps, simp only: False if_False, subst "1.IH" [OF False])
         (simp add: dq queue_at_upd)
  qed
qed

lemma recv_frame_arp:
  "accepts_arp c s frame arpmsg \<Longrightarrow> recv_frame c s frame = (None, recv_arp c s arpmsg)"
  by (simp add: accepts_arp_def recv_frame_def types_differ)

lemma make_reply_eq:
  "make_reply s arpmsg =
     \<lparr>opcode = OPCODE_REPLY,
      sender_ethernet_address = ethernet_address s,
      sender_ip_address = ip_address s,
      target_ethernet_address = sender_ethernet_address arpmsg,
      target_ip_address = sender_ip_address arpmsg\<rparr>"
  by (cases arpmsg) (simp add: make_reply_def)

text \<open>The ARP branch when no reply is built: the loop reads the message as received.\<close>

lemma recv_arp_plain:
  assumes "\<not> (opcode arpmsg = OPCODE_REQUEST \<and> target_ip_address arpmsg = ip_address s)"
  shows "recv_arp c s arpmsg =
     s\<lparr>arp_table := (arp_table s)(sender_ip_address arpmsg \<mapsto>
          (curr_time s, sender_ethernet_address arpmsg)),
       frame_queue := frame_queue s @
          map (ipv4_frame c (sender_ethernet_address arpmsg) (ethernet_address s))
              (snd (queue_at (queue_table s) (sender_ip_address arpmsg))),
       queue_table := (queue_table s)(sender_ip_address arpmsg \<mapsto>
          (fst (queue_at (queue_table s) (sender_ip_address arpmsg)), []))\<rparr>"
  using assms by (auto simp: recv_arp_def flush_waiting_eq Let_def)

text \<open>
  The ARP branch when a reply is built: the loop reads the rewritten message, whose
  sender is the interface itself.
\<close>

lemma recv_arp_reply:
  assumes "opcode arpmsg = OPCODE_REQUEST" "target_ip_address arpmsg = ip_address s"
  shows "recv_arp c s arpmsg =
     s\<lparr>arp_table := (arp_table s)(sender_ip_address arpmsg \<mapsto>
          (curr_time s, sender_ethernet_address arpmsg)),
       frame_queue := frame_queue s @
          [\<lparr>header = \<lparr>dst = sender_ethernet_address arpmsg, src = ethernet_address s,
                       type = TYPE_ARP\<rparr>,
            payload = serialize_arp c
              \<lparr>opcode = OPCODE_REPLY,
               sender_ethernet_address = ethernet_address s,
               sender_ip_address = ip_address s,
               target_ethernet_address = sender_ethernet_address arpmsg,
               target_ip_address = sender_ip_address arpmsg\<rparr>\<rparr>] @
          map (ipv4_frame c (ethernet_address s) (ethernet_address s))
              (snd (queue_at (queue_table s) (ip_address s))),
       queue_table := (queue_table s)(ip_address s \<mapsto>
          (fst (queue_at (queue_table s) (ip_address s)), []))\<rparr>"
  using assms by (simp add: recv_arp_def flush_waiting_eq make_reply_eq Let_def)

lemma recv_arp_arp_table:
  "arp_table (recv_arp c s arpmsg) =
     (arp_table s)(sender_ip_address arpmsg \<mapsto> (curr_time s, sender_ethernet_address arpmsg))"
  by (simp add: recv_arp_def flush_waiting_eq Let_def)

lemma recv_arp_curr_time: "curr_time (recv_arp c s arpmsg) = curr_time s"
  by (simp add: recv_arp_def flush_waiting_eq Let_def)

lemma recv_arp_queue_table:
  "queue_table (recv_arp c s arpmsg) k = queue_table s k
   \<or> queue_table (recv_arp c s arpmsg) k = Some (fst (queue_at (queue_table s) k), [])"
  by (simp add: recv_arp_def flush_waiting_eq make_reply_eq Let_def)


subsection \<open>Ticks\<close>

lemma tick_simps:
  "curr_time (tick s ms) = curr_time s + ms"
  "frame_queue (tick s ms) = frame_queue s"
  "ethernet_address (tick s ms) = ethernet_address s"
  "ip_address (tick s ms) = ip_address s"
  by (simp_all add: tick_def Let_def)

lemma tick_arp_table:
  "arp_table (tick s ms) ip =
     (case arp_table s ip of None \<Rightarrow> None
      | Some e \<Rightarrow> if 30000 < curr_time s + ms - fst e then None else Some e)"
  by (simp add: tick_def Let_def erase_expired_item_def expired_def split: option.splits)

lemma tick_queue_table:
  "queue_table (tick s ms) ip =
     (case queue_table s ip of None \<Rightarrow> None
      | Some e \<Rightarrow> if 5000 < curr_time s + ms - fst e then None else Some e)"
  by (simp add: tick_def Let_def erase_expired_item_def expired_def split: option.splits)

lemma ticks_snoc: "ticks s (ds @ [d]) = tick (ticks s ds) d"
  by (induction ds arbitrary: s) simp_all

lemma ticks_simps:
  "frame_queue (ticks s ds) = frame_queue s"
  "ethernet_address (ticks s ds) = ethernet_address s"
  "ip_address (ticks s ds) = ip_address s"
  by (induction ds arbitrary: s) (simp_all add: tick_simps)

lemma ticks_arp_table_mono:
  "arp_table (ticks s ds) ip = Some e \<Longrightarrow> arp_table s ip = Some e"
proof (induction ds arbitrary: s)
  case Nil
  then show ?case by simp
next
  case (Cons d ds)
  then have "arp_table (tick s d) ip = Some e" by simp
  then show ?case
    by (simp add: tick_arp_table split: option.splits if_splits)
qed

lemma ticks_queue_table_mono:
  "queue_table (ticks s ds) ip = Some e \<Longrightarrow> queue_table s ip = Some e"
proof (induction ds arbitrary: s)
  case Nil
  then show ?case by simp
next
  case (Cons d ds)
  then have "queue_table (tick s d) ip = Some e" by simp
  then show ?case
    by (simp add: tick_queue_table split: option.splits if_splits)
qed

text \<open>While the clock does not wrap, it is the start value plus the sum of the steps.\<close>

lemma ticks_clock:
  "unat (curr_time s) + sum_list (map unat ds) < 2 ^ 64 \<Longrightarrow>
   unat (curr_time (ticks s ds)) = unat (curr_time s) + sum_list (map unat ds)"
proof (induction ds arbitrary: s)
  case Nil
  then show ?case by simp
next
  case (Cons d ds)
  then have "unat (curr_time s) + unat d < 2 ^ LENGTH(64)" by simp
  then have d: "unat (curr_time s + d) = unat (curr_time s) + unat d"
    by (simp only: unat_add_lem)
  with Cons.prems have "unat (curr_time (tick s d)) + sum_list (map unat ds) < 2 ^ 64"
    by (simp add: tick_simps)
  from Cons.IH [OF this] d show ?case
    by (simp add: tick_simps)
qed

text \<open>An entry survives a run of ticks whose steps, added to its age, stay within the limit.\<close>

lemma word_diff_le:
  fixes a b d :: size_t
  shows "unat (a + d - b) \<le> unat (a - b) + unat d"
proof -
  have "a + d - b = (a - b) + d" by simp
  then show ?thesis
    by (simp only: unat_word_ariths) simp
qed

lemma ticks_arp_table_keep:
  "arp_table s ip = Some e \<Longrightarrow>
   unat (curr_time s - fst e) + sum_list (map unat ds) \<le> 30000 \<Longrightarrow>
   arp_table (ticks s ds) ip = Some e"
proof (induction ds arbitrary: s)
  case Nil
  then show ?case by simp
next
  case (Cons d ds)
  have le: "unat (curr_time s + d - fst e) \<le> unat (curr_time s - fst e) + unat d"
    by (rule word_diff_le)
  with Cons.prems(2) have "unat (curr_time s + d - fst e) \<le> 30000" by simp
  then have "\<not> 30000 < curr_time s + d - fst e"
    by (simp add: word_less_nat_alt)
  with Cons.prems(1) have a: "arp_table (tick s d) ip = Some e"
    by (simp add: tick_arp_table)
  from le Cons.prems(2)
  have b: "unat (curr_time (tick s d) - fst e) + sum_list (map unat ds) \<le> 30000"
    by (simp add: tick_simps)
  from Cons.IH [OF a b] show ?case by simp
qed

lemma ticks_queue_table_keep:
  "queue_table s ip = Some e \<Longrightarrow>
   unat (curr_time s - fst e) + sum_list (map unat ds) \<le> 5000 \<Longrightarrow>
   queue_table (ticks s ds) ip = Some e"
proof (induction ds arbitrary: s)
  case Nil
  then show ?case by simp
next
  case (Cons d ds)
  have le: "unat (curr_time s + d - fst e) \<le> unat (curr_time s - fst e) + unat d"
    by (rule word_diff_le)
  with Cons.prems(2) have "unat (curr_time s + d - fst e) \<le> 5000" by simp
  then have "\<not> 5000 < curr_time s + d - fst e"
    by (simp add: word_less_nat_alt)
  with Cons.prems(1) have a: "queue_table (tick s d) ip = Some e"
    by (simp add: tick_queue_table)
  from le Cons.prems(2)
  have b: "unat (curr_time (tick s d) - fst e) + sum_list (map unat ds) \<le> 5000"
    by (simp add: tick_simps)
  from Cons.IH [OF a b] show ?case by simp
qed

text \<open>After a tick no entry is older than the limit of its table.\<close>

lemma ticks_arp_table_fresh:
  "ds \<noteq> [] \<Longrightarrow> arp_table (ticks s ds) ip = Some e \<Longrightarrow>
   \<not> 30000 < curr_time (ticks s ds) - fst e"
proof (cases ds rule: rev_cases)
  case Nil
  assume "ds \<noteq> []" with Nil show ?thesis by simp
next
  case (snoc ds' d)
  assume "arp_table (ticks s ds) ip = Some e"
  with snoc show ?thesis
    by (simp add: ticks_snoc tick_arp_table tick_simps split: option.splits if_splits)
qed

lemma ticks_queue_table_fresh:
  "ds \<noteq> [] \<Longrightarrow> queue_table (ticks s ds) ip = Some e \<Longrightarrow>
   \<not> 5000 < curr_time (ticks s ds) - fst e"
proof (cases ds rule: rev_cases)
  case Nil
  assume "ds \<noteq> []" with Nil show ?thesis by simp
next
  case (snoc ds' d)
  assume "queue_table (ticks s ds) ip = Some e"
  with snoc show ?thesis
    by (simp add: ticks_snoc tick_queue_table tick_simps split: option.splits if_splits)
qed

text \<open>
  An entry stamped \<open>t\<close>, not after the clock, is swept by a run of ticks that takes the
  clock more than \<open>limit\<close> beyond \<open>t\<close> without wrapping.
\<close>

lemma age_after_ticks:
  assumes "unat (curr_time s) + sum_list (map unat ds) < 2 ^ 64"
    and "unat t + limit < unat (curr_time s) + sum_list (map unat ds)"
  shows "limit < unat (curr_time (ticks s ds) - t)"
proof -
  from assms(1) have c: "unat (curr_time (ticks s ds)) = unat (curr_time s) + sum_list (map unat ds)"
    by (rule ticks_clock)
  with assms(2) have "t \<le> curr_time (ticks s ds)"
    by (simp add: word_le_nat_alt)
  then have "unat (curr_time (ticks s ds) - t) = unat (curr_time (ticks s ds)) - unat t"
    by (rule unat_sub)
  with c assms(2) show ?thesis by simp
qed

subsection \<open>Sending\<close>

lemma send_datagram_miss:
  assumes "arp_table s next_hop = None" "queue_table s next_hop = None"
  shows "send_datagram c s dgram next_hop =
           s\<lparr>queue_table := (queue_table s)(next_hop \<mapsto> (curr_time s, [dgram])),
             frame_queue := frame_queue s @ [arp_request_frame c s next_hop]\<rparr>"
  using assms by (simp add: send_datagram_def Let_def touch_def queue_at_def)

lemma send_datagram_pending:
  assumes "arp_table s next_hop = None" "queue_table s next_hop = Some (t, q)"
  shows "send_datagram c s dgram next_hop =
           s\<lparr>queue_table := (queue_table s)(next_hop \<mapsto> (t, q @ [dgram]))\<rparr>"
  using assms by (simp add: send_datagram_def)

lemma send_datagram_curr_time: "curr_time (send_datagram c s dgram next_hop) = curr_time s"
  by (simp add: send_datagram_def Let_def split: option.splits)

lemma send_datagram_queue_table:
  "queue_table (send_datagram c s dgram next_hop) k = queue_table s k
   \<or> (k = next_hop \<and> (\<exists>q. queue_table (send_datagram c s dgram next_hop) k = Some (curr_time s, q @ [dgram])
                          \<or> (\<exists>t. queue_table s k = Some (t, q) \<and>
                               queue_table (send_datagram c s dgram next_hop) k = Some (t, q @ [dgram]))))"
  by (cases "arp_table s next_hop"; cases "queue_table s next_hop")
     (auto simp: send_datagram_def Let_def touch_def queue_at_def)

lemma maybe_send_tables:
  "queue_table (snd (maybe_send s)) = queue_table s"
  "arp_table (snd (maybe_send s)) = arp_table s"
  "curr_time (snd (maybe_send s)) = curr_time s"
  by (simp_all add: maybe_send_def split: list.splits)

lemma recv_frame_cases:
  "recv_frame c s frame = (fst (recv_frame c s frame), s)
   \<or> (\<exists>arpmsg. accepts_arp c s frame arpmsg \<and> recv_frame c s frame = (None, recv_arp c s arpmsg))"
  by (auto simp: recv_frame_def accepts_arp_def split: option.splits)

subsection \<open>Request times are never after the clock\<close>

lemma stamp_ok_new: "stamp_ok (new_interface eth ip0) ip"
  by (simp add: stamp_ok_def new_interface_def)

lemma stamp_ok_send: "stamp_ok s ip \<Longrightarrow> stamp_ok (send_datagram c s dgram next_hop) ip"
  using send_datagram_queue_table [of c s dgram next_hop ip]
  by (auto simp: stamp_ok_def send_datagram_curr_time split: option.splits)

lemma stamp_ok_recv_arp: "stamp_ok s ip \<Longrightarrow> stamp_ok (recv_arp c s arpmsg) ip"
  using recv_arp_queue_table [of c s arpmsg ip]
  by (auto simp: stamp_ok_def recv_arp_curr_time queue_at_def split: option.splits)

lemma stamp_ok_recv: "stamp_ok s ip \<Longrightarrow> stamp_ok (snd (recv_frame c s frame)) ip"
  using recv_frame_cases [of c s frame]
  by (auto simp: stamp_ok_recv_arp prod_eq_iff)

lemma stamp_ok_tick:
  assumes "stamp_ok s ip" "unat (curr_time s) + unat ms < 2 ^ 64"
  shows "stamp_ok (tick s ms) ip"
proof -
  from assms(2) have "unat (curr_time s) + unat ms < 2 ^ LENGTH(64)" by simp
  then have "unat (curr_time s + ms) = unat (curr_time s) + unat ms"
    by (simp only: unat_add_lem)
  then have "curr_time s \<le> curr_time s + ms"
    by (simp add: word_le_nat_alt)
  with assms(1) show ?thesis
    by (auto simp: stamp_ok_def tick_queue_table tick_simps split: option.splits if_splits)
qed

lemma stamp_ok_maybe_send: "stamp_ok s ip \<Longrightarrow> stamp_ok (snd (maybe_send s)) ip"
  by (auto simp: stamp_ok_def maybe_send_tables split: option.splits)

lemma apply_event_clock:
  "unat (curr_time s) + elapsed (e # es) < 2 ^ 64 \<Longrightarrow>
   unat (curr_time (apply_event c s e)) + elapsed es < 2 ^ 64"
proof (cases e)
  case (Send d nh)
  assume "unat (curr_time s) + elapsed (e # es) < 2 ^ 64"
  with Send show ?thesis by (simp add: send_datagram_curr_time)
next
  case (Recv f)
  assume a: "unat (curr_time s) + elapsed (e # es) < 2 ^ 64"
  have "curr_time (snd (recv_frame c s f)) = curr_time s"
    using recv_frame_cases [of c s f] by (auto simp: prod_eq_iff recv_arp_curr_time)
  with Recv a show ?thesis by simp
next
  case (Tick ms)
  assume a: "unat (curr_time s) + elapsed (e # es) < 2 ^ 64"
  with Tick have "unat (curr_time s) + unat ms < 2 ^ LENGTH(64)" by simp
  then have "unat (curr_time s + ms) = unat (curr_time s) + unat ms"
    by (simp only: unat_add_lem)
  with Tick a show ?thesis by (simp add: tick_simps)
next
  case Drain
  assume "unat (curr_time s) + elapsed (e # es) < 2 ^ 64"
  with Drain show ?thesis by (simp add: maybe_send_tables)
qed

lemma stamp_ok_apply_event:
  "stamp_ok s ip \<Longrightarrow> unat (curr_time s) + elapsed (e # es) < 2 ^ 64 \<Longrightarrow>
   stamp_ok (apply_event c s e) ip"
  by (cases e) (simp_all add: stamp_ok_send stamp_ok_recv stamp_ok_tick stamp_ok_maybe_send)

lemma stamp_ok_run:
  "(\<And>ip. stamp_ok s ip) \<Longrightarrow> unat (curr_time s) + elapsed es < 2 ^ 64 \<Longrightarrow>
   stamp_ok (run c s es) ip"
proof (induction es arbitrary: s ip)
  case Nil
  then show ?case by simp
next
  case (Cons e es)
  have a: "\<And>x. stamp_ok (apply_event c s e) x"
    using Cons.prems by (simp add: stamp_ok_apply_event)
  have b: "unat (curr_time (apply_event c s e)) + elapsed es < 2 ^ 64"
    using Cons.prems(2) by (rule apply_event_clock)
  from Cons.IH [OF a b] show ?case by simp
qed

subsection \<open>Sweeping does not look at the queues\<close>

lemma erase_expired_item_requeue:
  "erase_expired_item now (\<lambda>k. map_option (\<lambda>e. (fst e, f k (snd e))) (m k)) limit =
   (\<lambda>k. map_option (\<lambda>e. (fst e, f k (snd e))) (erase_expired_item now m limit k))"
proof
  fix k
  show "erase_expired_item now (\<lambda>k. map_option (\<lambda>e. (fst e, f k (snd e))) (m k)) limit k =
        map_option (\<lambda>e. (fst e, f k (snd e))) (erase_expired_item now m limit k)"
    by (cases "m k") (simp_all add: erase_expired_item_def expired_def)
qed

lemma tick_requeue: "tick (requeue f s) ms = requeue f (tick s ms)"
  by (simp add: requeue_def tick_def Let_def erase_expired_item_requeue)

lemma ticks_requeue: "ticks (requeue f s) ds = requeue f (ticks s ds)"
  by (induction ds arbitrary: s) (simp_all add: tick_requeue)

lemma requeue_absent:
  assumes "queue_table s ip = None" "\<And>k q. k \<noteq> ip \<Longrightarrow> f k q = q"
  shows "requeue f s = s"
proof -
  have "(\<lambda>k. map_option (\<lambda>e. (fst e, f k (snd e))) (queue_table s k)) = queue_table s"
  proof
    fix k
    show "map_option (\<lambda>e. (fst e, f k (snd e))) (queue_table s k) = queue_table s k"
      using assms by (cases "k = ip"; cases "queue_table s k") auto
  qed
  then show ?thesis by (simp add: requeue_def)
qed

lemma requeue_entry:
  assumes "queue_table s ip = Some (t, q)"
  shows "s\<lparr>queue_table := (queue_table s)(ip \<mapsto> (t, q'))\<rparr> =
         requeue (\<lambda>k old. if k = ip then q' else old) s"
proof -
  have "(queue_table s)(ip \<mapsto> (t, q')) =
        (\<lambda>k. map_option (\<lambda>e. (fst e, if k = ip then q' else snd e)) (queue_table s k))"
  proof
    fix k
    show "((queue_table s)(ip \<mapsto> (t, q'))) k =
          map_option (\<lambda>e. (fst e, if k = ip then q' else snd e)) (queue_table s k)"
      using assms by (cases "k = ip"; cases "queue_table s k") auto
  qed
  then show ?thesis by (simp add: requeue_def)
qed

subsection \<open>Frames of the two types\<close>

lemma filter_arp_ipv4_frames:
  "filter (\<lambda>f. type (header f) = TYPE_ARP) (map (ipv4_frame c a b) q) = []"
  using types_differ by (induction q) auto


lemma host_a_waiting_eq:
  "host_a_waiting =
     host_a\<lparr>queue_table := [2 \<mapsto> (0, [[7], [8]])],
            frame_queue := [arp_request_frame toy_codec host_a 2]\<rparr>"
proof -
  have a: "arp_table host_a 2 = None" "queue_table host_a 2 = None"
    by (simp_all add: toy_defs)
  have b: "send_datagram toy_codec host_a [7] 2 =
      host_a\<lparr>queue_table := [2 \<mapsto> (0, [[7]])],
             frame_queue := [arp_request_frame toy_codec host_a 2]\<rparr>"
    by (simp add: send_datagram_miss [OF a]) (simp add: toy_defs)
  show ?thesis
    unfolding host_a_waiting_def b
    by (subst send_datagram_pending [where t = 0 and q = "[[7]]"]) (simp_all add: a)
qed


subsection \<open>Empty queues\<close>

lemma no_empty_queue_send: "no_empty_queue s \<Longrightarrow> no_empty_queue (send_datagram c s dgram next_hop)"
  unfolding no_empty_queue_def
proof (intro allI impI)
  fix ip e
  assume inv: "\<forall>ip e. queue_table s ip = Some e \<longrightarrow> snd e \<noteq> []"
    and e: "queue_table (send_datagram c s dgram next_hop) ip = Some e"
  from send_datagram_queue_table [of c s dgram next_hop ip] e
  have "queue_table s ip = Some e \<or> (\<exists>q. snd e = q @ [dgram])"
    by auto
  with inv show "snd e \<noteq> []" by (cases e) auto
qed

lemma no_empty_queue_tick: "no_empty_queue s \<Longrightarrow> no_empty_queue (tick s ms)"
  by (auto simp: no_empty_queue_def tick_queue_table split: option.splits if_splits)

lemma no_empty_queue_maybe_send: "no_empty_queue s \<Longrightarrow> no_empty_queue (snd (maybe_send s))"
  by (simp add: no_empty_queue_def maybe_send_tables)

lemma recv_frame_queue_table:
  "queue_table (snd (recv_frame c s frame)) ip = queue_table s ip
   \<or> (\<exists>t. queue_table (snd (recv_frame c s frame)) ip = Some (t, []))"
  using recv_frame_cases [of c s frame] recv_arp_queue_table [of c _ _ ip]
  by (metis snd_conv)

lemma no_empty_queue_host_a_waiting: "no_empty_queue host_a_waiting"
  by (simp add: no_empty_queue_def host_a_waiting_eq)

subsection \<open>A cache hit, and what receiving keeps\<close>

lemma send_datagram_hit:
  "arp_table s next_hop = Some e \<Longrightarrow>
   send_datagram c s dgram next_hop =
     s\<lparr>frame_queue := frame_queue s @ [ipv4_frame c (snd e) (ethernet_address s) dgram]\<rparr>"
  by (simp add: send_datagram_def)

lemma recv_arp_identity:
  "ethernet_address (recv_arp c s arpmsg) = ethernet_address s"
  "ip_address (recv_arp c s arpmsg) = ip_address s"
  by (simp_all add: recv_arp_def flush_waiting_eq Let_def)

subsection \<open>Two datagrams for an unresolved address, answered by a reply\<close>

text \<open>
  With neither a cache entry nor a queue-table entry for \<open>ip\<close>, two calls of
  \<open>send_datagram\<close> queue one ARP request between them and leave both datagrams waiting,
  in order. An ARP message from \<open>ip\<close> that is not a request for the local IP address,
  arriving within the 5000 ms of the entry, sends both on.
\<close>

lemma two_sends_one_request:
  assumes "arp_table s ip = None" "queue_table s ip = None"
    and "accepts_arp c s frame arpmsg" "sender_ip_address arpmsg = ip"
    and "\<not> (opcode arpmsg = OPCODE_REQUEST \<and> target_ip_address arpmsg = ip_address s)"
    and "ms \<le> 5000"
  shows "frame_queue (send_datagram c s d1 ip) = frame_queue s @ [arp_request_frame c s ip]"
    and "frame_queue (send_datagram c (send_datagram c s d1 ip) d2 ip) =
           frame_queue s @ [arp_request_frame c s ip]"
    and "queue_table (send_datagram c (send_datagram c s d1 ip) d2 ip) =
           (queue_table s)(ip \<mapsto> (curr_time s, [d1, d2]))"
    and "frame_queue (snd (recv_frame c
            (tick (send_datagram c (send_datagram c s d1 ip) d2 ip) ms) frame)) =
           frame_queue s @
             [arp_request_frame c s ip,
              ipv4_frame c (sender_ethernet_address arpmsg) (ethernet_address s) d1,
              ipv4_frame c (sender_ethernet_address arpmsg) (ethernet_address s) d2]"
proof -
  let ?s1 = "send_datagram c s d1 ip"
  let ?s2 = "send_datagram c ?s1 d2 ip"
  let ?s3 = "tick ?s2 ms"
  have s1: "?s1 = s\<lparr>queue_table := (queue_table s)(ip \<mapsto> (curr_time s, [d1])),
                     frame_queue := frame_queue s @ [arp_request_frame c s ip]\<rparr>"
    using assms(1,2) by (rule send_datagram_miss)
  have "arp_table ?s1 ip = None" "queue_table ?s1 ip = Some (curr_time s, [d1])"
    using assms(1) by (simp_all add: s1)
  then have "?s2 = ?s1\<lparr>queue_table := (queue_table ?s1)(ip \<mapsto> (curr_time s, [d1] @ [d2]))\<rparr>"
    by (rule send_datagram_pending)
  then have s2: "?s2 = s\<lparr>queue_table := (queue_table s)(ip \<mapsto> (curr_time s, [d1, d2])),
                         frame_queue := frame_queue s @ [arp_request_frame c s ip]\<rparr>"
    by (simp add: s1)
  show "frame_queue ?s1 = frame_queue s @ [arp_request_frame c s ip]"
    by (simp add: s1)
  show "frame_queue ?s2 = frame_queue s @ [arp_request_frame c s ip]"
    by (simp add: s2)
  show "queue_table ?s2 = (queue_table s)(ip \<mapsto> (curr_time s, [d1, d2]))"
    by (simp add: s2)
  from assms(6) have "\<not> 5000 < curr_time ?s2 + ms - curr_time s"
    by (simp add: s2 not_less)
  then have q3: "queue_table ?s3 ip = Some (curr_time s, [d1, d2])"
    by (simp add: tick_queue_table) (simp add: s2)
  have acc: "accepts_arp c ?s3 frame arpmsg"
    using assms(3) by (simp add: accepts_arp_def tick_simps s2)
  have np: "\<not> (opcode arpmsg = OPCODE_REQUEST \<and> target_ip_address arpmsg = ip_address ?s3)"
    using assms(5) by (simp add: tick_simps s2)
  from q3 have qa: "queue_at (queue_table ?s3) ip = (curr_time s, [d1, d2])"
    by (simp add: queue_at_def)
  have fq: "frame_queue ?s3 = frame_queue s @ [arp_request_frame c s ip]"
    "ethernet_address ?s3 = ethernet_address s"
    by (simp_all add: tick_simps s2)
  show "frame_queue (snd (recv_frame c ?s3 frame)) =
           frame_queue s @
             [arp_request_frame c s ip,
              ipv4_frame c (sender_ethernet_address arpmsg) (ethernet_address s) d1,
              ipv4_frame c (sender_ethernet_address arpmsg) (ethernet_address s) d2]"
    by (simp add: recv_frame_arp [OF acc] recv_arp_plain [OF np] assms(4) qa fq)
qed

section \<open>Sending on a cache hit\<close>

text \<open>
  C3. When the cache holds an entry for the next hop, \<open>send_datagram\<close> appends exactly one
  frame to the frame queue: an IPv4 frame to the cached hardware address, from the local
  hardware address, carrying the serialised datagram. Nothing else changes: no ARP frame
  is queued and both tables stay as they are.
\<close>

theorem send_datagram_cache_hit:
  assumes "arp_table s next_hop = Some (t, mac)"
  shows "send_datagram c s dgram next_hop =
           s\<lparr>frame_queue := frame_queue s @
               [\<lparr>header = \<lparr>dst = mac, src = ethernet_address s, type = TYPE_IPv4\<rparr>,
                 payload = serialize_dgram c dgram\<rparr>]\<rparr>
         \<and> type (header (ipv4_frame c mac (ethernet_address s) dgram)) \<noteq> TYPE_ARP
         \<and> arp_table (send_datagram c s dgram next_hop) = arp_table s
         \<and> queue_table (send_datagram c s dgram next_hop) = queue_table s"
  using assms by (simp add: send_datagram_def TYPE_IPv4_def TYPE_ARP_def)

theorem send_datagram_cache_hit_witness:
  "arp_table (snd (recv_frame toy_codec host_a reply_from_b)) 2 = Some (0, eth_b)
   \<and> send_datagram toy_codec (snd (recv_frame toy_codec host_a reply_from_b)) [7] 2 =
       (snd (recv_frame toy_codec host_a reply_from_b))
         \<lparr>frame_queue := [\<lparr>header = \<lparr>dst = eth_b, src = eth_a, type = TYPE_IPv4\<rparr>,
                            payload = [7]\<rparr>]\<rparr>"
proof -
  have h: "arp_table (snd (recv_frame toy_codec host_a reply_from_b)) 2 = Some (0, eth_b)"
    by code_simp
  have q: "frame_queue (snd (recv_frame toy_codec host_a reply_from_b)) = []"
    by code_simp
  have e: "ethernet_address (snd (recv_frame toy_codec host_a reply_from_b)) = eth_a"
    by code_simp
  have p: "serialize_dgram toy_codec [7] = [7]"
    by (simp add: toy_codec_def)
  show ?thesis
    using h send_datagram_cache_hit [OF h, of toy_codec "[7]"]
    by (simp add: q e p)
qed

section \<open>Receiving\<close>

text \<open>
  C7. When a frame addressed to the interface or to the broadcast address carries an ARP
  message that parses, \<open>recv_frame\<close> sets the cache entry of the sender's IP address to
  the sender's hardware address with the current clock value, whatever the opcode, the
  target and the state of the queue table, and leaves every other cache entry alone.
\<close>

theorem recv_frame_learns_sender:
  assumes "dst (header frame) = ethernet_address s \<or> dst (header frame) = ETHERNET_BROADCAST"
    and "type (header frame) = TYPE_ARP"
    and "parse_arp c (payload frame) = Some arpmsg"
  shows "arp_table (snd (recv_frame c s frame)) =
           (arp_table s)(sender_ip_address arpmsg \<mapsto>
              (curr_time s, sender_ethernet_address arpmsg))"
proof -
  from assms have "accepts_arp c s frame arpmsg"
    by (simp add: accepts_arp_def)
  then show ?thesis
    by (simp add: recv_frame_arp recv_arp_arp_table)
qed

theorem recv_frame_learns_sender_witness:
  "arp_table host_a 2 = None
   \<and> arp_table (snd (recv_frame toy_codec host_a request_for_c)) 2 = Some (0, eth_b)
   \<and> arp_table (snd (recv_frame toy_codec host_a reply_from_b)) 2 = Some (0, eth_b)"
proof -
  have a: "dst (header request_for_c) = ETHERNET_BROADCAST"
    "type (header request_for_c) = TYPE_ARP"
    "parse_arp toy_codec (payload request_for_c) = Some request_other_msg"
    by (simp_all add: toy_defs)
  have b: "dst (header reply_from_b) = ethernet_address host_a"
    "type (header reply_from_b) = TYPE_ARP"
    "parse_arp toy_codec (payload reply_from_b) = Some reply_msg"
    by (simp_all add: toy_defs)
  have c: "curr_time host_a = 0" "arp_table host_a 2 = None"
    "sender_ip_address request_other_msg = 2" "sender_ip_address reply_msg = 2"
    "sender_ethernet_address request_other_msg = eth_b"
    "sender_ethernet_address reply_msg = eth_b"
    by (simp_all add: toy_defs)
  show ?thesis
    using recv_frame_learns_sender [of request_for_c host_a toy_codec request_other_msg, OF disjI2, OF a]
      recv_frame_learns_sender [of reply_from_b host_a toy_codec reply_msg, OF disjI1, OF b]
    by (simp add: c)
qed

text \<open>
  C9. A frame addressed neither to the interface nor to the broadcast address, and a
  frame of type IPv4 or ARP whose payload does not parse, are dropped: \<open>recv_frame\<close>
  returns no datagram and the state it leaves is the state it found, so the cache, the
  queue table, the frame queue and the clock are unchanged.
\<close>

theorem recv_frame_discards:
  assumes "(dst (header frame) \<noteq> ethernet_address s \<and> dst (header frame) \<noteq> ETHERNET_BROADCAST)
      \<or> (type (header frame) = TYPE_IPv4 \<and> parse_dgram c (payload frame) = None)
      \<or> (type (header frame) = TYPE_ARP \<and> parse_arp c (payload frame) = None)"
  shows "recv_frame c s frame = (None, s)"
  using assms by (auto simp: recv_frame_def types_differ split: option.splits)

theorem recv_frame_discards_witness:
  "recv_frame toy_codec host_a (reply_from_b\<lparr>header := \<lparr>dst = eth_b, src = eth_a, type = TYPE_ARP\<rparr>\<rparr>)
     = (None, host_a)
   \<and> recv_frame toy_codec host_a \<lparr>header = \<lparr>dst = eth_a, src = eth_b, type = TYPE_IPv4\<rparr>, payload = []\<rparr>
     = (None, host_a)
   \<and> recv_frame toy_codec host_a \<lparr>header = \<lparr>dst = eth_a, src = eth_b, type = TYPE_ARP\<rparr>, payload = [2, 2, 1]\<rparr>
     = (None, host_a)"
proof -
  let ?f1 = "reply_from_b\<lparr>header := \<lparr>dst = eth_b, src = eth_a, type = TYPE_ARP\<rparr>\<rparr>"
  let ?f2 = "\<lparr>header = \<lparr>dst = eth_a, src = eth_b, type = TYPE_IPv4\<rparr>, payload = []\<rparr>"
  let ?f3 = "\<lparr>header = \<lparr>dst = eth_a, src = eth_b, type = TYPE_ARP\<rparr>, payload = [2, 2, 1]\<rparr>"
  have h1: "dst (header ?f1) \<noteq> ethernet_address host_a \<and> dst (header ?f1) \<noteq> ETHERNET_BROADCAST"
    by (simp add: toy_defs)
  have h2: "type (header ?f2) = TYPE_IPv4 \<and> parse_dgram toy_codec (payload ?f2) = None"
    by (simp add: toy_defs)
  have h3: "type (header ?f3) = TYPE_ARP \<and> parse_arp toy_codec (payload ?f3) = None"
    by (simp add: toy_defs)
  show ?thesis
    using recv_frame_discards [of ?f1 host_a toy_codec, OF disjI1, OF h1]
      recv_frame_discards [of ?f2 host_a toy_codec, OF disjI2, OF disjI1, OF h2]
      recv_frame_discards [of ?f3 host_a toy_codec, OF disjI2, OF disjI2, OF h3]
    by simp
qed

text \<open>
  C10. For a frame of type IPv4 addressed to the interface or to the broadcast address,
  \<open>recv_frame\<close> returns what the datagram parser returns (the datagram, or nothing when
  the payload does not parse) and leaves the whole state, hence the cache, the queue
  table, the frame queue and the clock, as it was.
\<close>

theorem recv_frame_ipv4_pure:
  assumes "dst (header frame) = ethernet_address s \<or> dst (header frame) = ETHERNET_BROADCAST"
    and "type (header frame) = TYPE_IPv4"
  shows "recv_frame c s frame = (parse_dgram c (payload frame), s)"
  using assms by (auto simp: recv_frame_def split: option.splits)

theorem recv_frame_ipv4_pure_witness:
  "recv_frame toy_codec host_a \<lparr>header = \<lparr>dst = eth_a, src = eth_b, type = TYPE_IPv4\<rparr>, payload = [4, 5]\<rparr>
     = (Some [4, 5], host_a)
   \<and> recv_frame toy_codec host_a \<lparr>header = \<lparr>dst = ETHERNET_BROADCAST, src = eth_b, type = TYPE_IPv4\<rparr>, payload = []\<rparr>
     = (None, host_a)"
proof -
  let ?f1 = "\<lparr>header = \<lparr>dst = eth_a, src = eth_b, type = TYPE_IPv4\<rparr>, payload = [4, 5]\<rparr>"
  let ?f2 = "\<lparr>header = \<lparr>dst = ETHERNET_BROADCAST, src = eth_b, type = TYPE_IPv4\<rparr>, payload = []\<rparr>"
  have h1: "dst (header ?f1) = ethernet_address host_a" "type (header ?f1) = TYPE_IPv4"
    by (simp_all add: toy_defs)
  have h2: "dst (header ?f2) = ETHERNET_BROADCAST" "type (header ?f2) = TYPE_IPv4"
    by simp_all
  have p: "parse_dgram toy_codec [4, 5] = Some [4, 5]" "parse_dgram toy_codec [] = None"
    by (simp_all add: toy_codec_def)
  show ?thesis
    using recv_frame_ipv4_pure [of ?f1 host_a toy_codec, OF disjI1, OF h1]
      recv_frame_ipv4_pure [of ?f2 host_a toy_codec, OF disjI2, OF h2]
    by (simp add: p)
qed

text \<open>
  C8. An ARP request in a frame addressed to the interface or to the broadcast address.
  If its target IP address is the local one, \<open>recv_frame\<close> appends the reply (to the
  requester's hardware address, from the local one, opcode REPLY, sender fields the local
  identity, target fields the requester), and the reply is the only frame of type ARP it
  appends: what follows it are the IPv4 frames of the loop. If the target IP address is
  another one, no frame of type ARP is appended. In both cases the sender is learnt.
\<close>

theorem recv_frame_arp_request:
  assumes "dst (header frame) = ethernet_address s \<or> dst (header frame) = ETHERNET_BROADCAST"
    and "type (header frame) = TYPE_ARP"
    and "parse_arp c (payload frame) = Some arpmsg"
    and "opcode arpmsg = OPCODE_REQUEST"
  shows "(target_ip_address arpmsg = ip_address s \<longrightarrow>
            frame_queue (snd (recv_frame c s frame)) =
              frame_queue s @ [arp_reply_frame c s arpmsg] @
              map (ipv4_frame c (ethernet_address s) (ethernet_address s))
                  (snd (queue_at (queue_table s) (ip_address s)))
          \<and> filter (\<lambda>f. type (header f) = TYPE_ARP) (frame_queue (snd (recv_frame c s frame))) =
              filter (\<lambda>f. type (header f) = TYPE_ARP) (frame_queue s) @ [arp_reply_frame c s arpmsg])
       \<and> (target_ip_address arpmsg \<noteq> ip_address s \<longrightarrow>
            frame_queue (snd (recv_frame c s frame)) =
              frame_queue s @
              map (ipv4_frame c (sender_ethernet_address arpmsg) (ethernet_address s))
                  (snd (queue_at (queue_table s) (sender_ip_address arpmsg)))
          \<and> filter (\<lambda>f. type (header f) = TYPE_ARP) (frame_queue (snd (recv_frame c s frame))) =
              filter (\<lambda>f. type (header f) = TYPE_ARP) (frame_queue s))
       \<and> arp_table (snd (recv_frame c s frame)) (sender_ip_address arpmsg) =
            Some (curr_time s, sender_ethernet_address arpmsg)"
proof -
  from assms have acc: "accepts_arp c s frame arpmsg"
    by (simp add: accepts_arp_def)
  show ?thesis
  proof (cases "target_ip_address arpmsg = ip_address s")
    case True
    with assms(4) show ?thesis
      by (simp add: recv_frame_arp [OF acc] recv_arp_reply filter_arp_ipv4_frames)
  next
    case False
    then show ?thesis
      by (simp add: recv_frame_arp [OF acc] recv_arp_plain filter_arp_ipv4_frames)
  qed
qed

theorem recv_frame_arp_request_witness:
  "frame_queue (snd (recv_frame toy_codec host_a request_from_b)) =
     [\<lparr>header = \<lparr>dst = eth_b, src = eth_a, type = TYPE_ARP\<rparr>,
       payload = [2, 1, 2] @ eth_a @ eth_b\<rparr>]
   \<and> frame_queue (snd (recv_frame toy_codec host_a request_for_c)) = []
   \<and> arp_table (snd (recv_frame toy_codec host_a request_for_c)) 2 = Some (0, eth_b)"
proof -
  have a: "dst (header request_from_b) = ETHERNET_BROADCAST"
    "type (header request_from_b) = TYPE_ARP"
    "parse_arp toy_codec (payload request_from_b) = Some request_msg"
    "opcode request_msg = OPCODE_REQUEST"
    by (simp_all add: toy_defs)
  have b: "dst (header request_for_c) = ETHERNET_BROADCAST"
    "type (header request_for_c) = TYPE_ARP"
    "parse_arp toy_codec (payload request_for_c) = Some request_other_msg"
    "opcode request_other_msg = OPCODE_REQUEST"
    by (simp_all add: toy_defs)
  have c: "target_ip_address request_msg = 1" "target_ip_address request_other_msg = 3"
    "frame_queue host_a = []" "queue_table host_a = Map.empty" "curr_time host_a = 0"
    "ethernet_address host_a = eth_a" "ip_address host_a = 1"
    "sender_ethernet_address request_msg = eth_b" "sender_ip_address request_msg = 2"
    "sender_ethernet_address request_other_msg = eth_b" "sender_ip_address request_other_msg = 2"
    by (simp_all add: toy_defs)
  have d: "serialize_arp toy_codec
        \<lparr>opcode = OPCODE_REPLY, sender_ethernet_address = eth_a, sender_ip_address = 1,
         target_ethernet_address = eth_b, target_ip_address = 2\<rparr> = [2, 1, 2] @ eth_a @ eth_b"
    by (simp add: toy_defs)
  show ?thesis
    using recv_frame_arp_request [of request_from_b host_a toy_codec request_msg, OF disjI2, OF a]
      recv_frame_arp_request [of request_for_c host_a toy_codec request_other_msg, OF disjI2, OF b]
    by (simp add: c d queue_at_def)
qed

section \<open>Flushing the waiting datagrams\<close>

text \<open>
  C1, as amended. A frame addressed to the interface or to the broadcast address carries
  an ARP message that parses and is not a request for the local IP address, and the
  queue table has an entry for the sender's IP address. Then \<open>recv_frame\<close> appends one
  IPv4 frame for each waiting datagram, addressed to the sender's hardware address, in
  the order of the queue, which is the order of submission since \<open>send_datagram\<close>
  appends at the back. The entry is not removed: it stays in the table with its request
  time and an empty queue.
\<close>

theorem recv_frame_flushes_in_order:
  assumes "dst (header frame) = ethernet_address s \<or> dst (header frame) = ETHERNET_BROADCAST"
    and "type (header frame) = TYPE_ARP"
    and "parse_arp c (payload frame) = Some arpmsg"
    and "\<not> (opcode arpmsg = OPCODE_REQUEST \<and> target_ip_address arpmsg = ip_address s)"
    and "queue_table s (sender_ip_address arpmsg) = Some (t, q)"
  shows "frame_queue (snd (recv_frame c s frame)) =
           frame_queue s @ map (ipv4_frame c (sender_ethernet_address arpmsg) (ethernet_address s)) q
       \<and> queue_table (snd (recv_frame c s frame)) =
           (queue_table s)(sender_ip_address arpmsg \<mapsto> (t, []))
       \<and> (arp_table s (sender_ip_address arpmsg) = None \<longrightarrow>
            queue_table (send_datagram c s dgram (sender_ip_address arpmsg)) (sender_ip_address arpmsg)
              = Some (t, q @ [dgram]))"
proof -
  from assms have acc: "accepts_arp c s frame arpmsg"
    by (simp add: accepts_arp_def)
  from assms(5) have q: "queue_at (queue_table s) (sender_ip_address arpmsg) = (t, q)"
    by (simp add: queue_at_def)
  from assms(4) show ?thesis
    by (simp add: recv_frame_arp [OF acc] recv_arp_plain q send_datagram_pending [OF _ assms(5)])
qed

theorem recv_frame_flushes_in_order_witness:
  "queue_table host_a_waiting 2 = Some (0, [[7], [8]])
   \<and> frame_queue (snd (recv_frame toy_codec host_a_waiting reply_from_b)) =
       [arp_request_frame toy_codec host_a 2,
        \<lparr>header = \<lparr>dst = eth_b, src = eth_a, type = TYPE_IPv4\<rparr>, payload = [7]\<rparr>,
        \<lparr>header = \<lparr>dst = eth_b, src = eth_a, type = TYPE_IPv4\<rparr>, payload = [8]\<rparr>]
   \<and> queue_table (snd (recv_frame toy_codec host_a_waiting reply_from_b)) = [2 \<mapsto> (0, [])]
   \<and> queue_table (send_datagram toy_codec host_a_waiting [9] 2) 2 = Some (0, [[7], [8], [9]])"
proof -
  have a: "dst (header reply_from_b) = ethernet_address host_a_waiting"
    "type (header reply_from_b) = TYPE_ARP"
    "parse_arp toy_codec (payload reply_from_b) = Some reply_msg"
    "\<not> (opcode reply_msg = OPCODE_REQUEST \<and> target_ip_address reply_msg = ip_address host_a_waiting)"
    "queue_table host_a_waiting (sender_ip_address reply_msg) = Some (0, [[7], [8]])"
    by (simp_all add: host_a_waiting_eq) (simp_all add: toy_defs)
  have b: "sender_ip_address reply_msg = 2" "sender_ethernet_address reply_msg = eth_b"
    "arp_table host_a_waiting 2 = None" "ethernet_address host_a_waiting = eth_a"
    "frame_queue host_a_waiting = [arp_request_frame toy_codec host_a 2]"
    "queue_table host_a_waiting = [2 \<mapsto> (0, [[7], [8]])]"
    by (simp_all add: host_a_waiting_eq) (simp_all add: toy_defs)
  have p: "serialize_dgram toy_codec [7] = [7]" "serialize_dgram toy_codec [8] = [8]"
    by (simp_all add: toy_codec_def)
  show ?thesis
    using recv_frame_flushes_in_order [of reply_from_b host_a_waiting toy_codec reply_msg 0 "[[7], [8]]" "[9]",
        OF disjI1, OF a]
    by (simp add: b p)
qed

text \<open>
  C1 with the entry removed does not hold: host A holds two datagrams for IP address 2,
  the reply of host B arrives, and the entry of 2 is still in the queue table.
\<close>

theorem recv_frame_keeps_drained_entry:
  "dst (header reply_from_b) = ethernet_address host_a_waiting
   \<and> type (header reply_from_b) = TYPE_ARP
   \<and> parse_arp toy_codec (payload reply_from_b) = Some reply_msg
   \<and> queue_table host_a_waiting (sender_ip_address reply_msg) = Some (0, [[7], [8]])
   \<and> queue_table (snd (recv_frame toy_codec host_a_waiting reply_from_b)) (sender_ip_address reply_msg)
       = Some (0, [])"
  by code_simp

text \<open>
  C4. Two datagrams are handed to host A for IP address 2, for which it holds no cache
  entry: one ARP request is queued and both datagrams wait. Then the
  address is resolved by an ARP request of host B for the address of A: the cache now
  maps 2 to \<open>eth_b\<close> and the reply is queued, but the two datagrams are not sent:
  they stay in the queue table, since the loop of \<open>recv_frame\<close> reads the message after
  it has been rewritten into the reply and so looks up the local IP address. A third
  datagram for 2 is then sent at once, ahead of the two, and a tick past the 5000 ms
  drops them.
\<close>

theorem request_from_peer_does_not_flush:
  "arp_table host_a_waiting 2 = None
   \<and> frame_queue host_a_waiting = [arp_request_frame toy_codec host_a 2]
   \<and> queue_table host_a_waiting 2 = Some (0, [[7], [8]])
   \<and> arp_table (snd (recv_frame toy_codec host_a_waiting request_from_b)) 2 = Some (0, eth_b)
   \<and> frame_queue (snd (recv_frame toy_codec host_a_waiting request_from_b)) =
       [arp_request_frame toy_codec host_a 2, arp_reply_frame toy_codec host_a request_msg]
   \<and> queue_table (snd (recv_frame toy_codec host_a_waiting request_from_b)) 2 = Some (0, [[7], [8]])
   \<and> frame_queue (send_datagram toy_codec (snd (recv_frame toy_codec host_a_waiting request_from_b)) [9] 2) =
       [arp_request_frame toy_codec host_a 2, arp_reply_frame toy_codec host_a request_msg,
        ipv4_frame toy_codec eth_b eth_a [9]]
   \<and> queue_table (tick (snd (recv_frame toy_codec host_a_waiting request_from_b)) 5001) 2 = None
   \<and> frame_queue (tick (snd (recv_frame toy_codec host_a_waiting request_from_b)) 5001) =
       [arp_request_frame toy_codec host_a 2, arp_reply_frame toy_codec host_a request_msg]"
  by code_simp

section \<open>Queue-table entries with an empty queue\<close>

text \<open>
  C2, as amended. \<open>send_datagram\<close>, \<open>tick\<close> and \<open>maybe_send\<close> keep the property that no
  entry of the queue table has an empty queue. \<open>recv_frame\<close> does not: every entry it
  changes is left in the table with an empty queue (it is never erased there; only the
  sweep of a later \<open>tick\<close> removes it).
\<close>

theorem empty_queue_only_after_recv:
  "(no_empty_queue s \<longrightarrow> no_empty_queue (send_datagram c s dgram next_hop))
   \<and> (no_empty_queue s \<longrightarrow> no_empty_queue (tick s ms))
   \<and> (no_empty_queue s \<longrightarrow> no_empty_queue (snd (maybe_send s)))
   \<and> (queue_table (snd (recv_frame c s frame)) ip \<noteq> queue_table s ip \<longrightarrow>
        (\<exists>t. queue_table (snd (recv_frame c s frame)) ip = Some (t, [])))"
  using recv_frame_queue_table [of c s frame ip]
  by (auto simp: no_empty_queue_send no_empty_queue_tick no_empty_queue_maybe_send)

theorem empty_queue_only_after_recv_witness:
  "no_empty_queue host_a_waiting
   \<and> no_empty_queue (send_datagram toy_codec host_a_waiting [9] 2)
   \<and> no_empty_queue (tick host_a_waiting 100)
   \<and> no_empty_queue (snd (maybe_send host_a_waiting))
   \<and> queue_table (snd (recv_frame toy_codec host_a_waiting reply_from_b)) 2 \<noteq> queue_table host_a_waiting 2
   \<and> (\<exists>t. queue_table (snd (recv_frame toy_codec host_a_waiting reply_from_b)) 2 = Some (t, []))"
proof -
  have a: "queue_table (snd (recv_frame toy_codec host_a_waiting reply_from_b)) 2 \<noteq> queue_table host_a_waiting 2"
    by code_simp
  show ?thesis
    using empty_queue_only_after_recv [of host_a_waiting toy_codec "[9]" 2 100 reply_from_b 2]
      no_empty_queue_host_a_waiting a
    by simp
qed

text \<open>
  C2 without that exception does not hold: host A holds one datagram for IP address 2 and no
  entry has an empty queue; after \<open>recv_frame\<close> has returned from the reply of host B,
  the entry of 2 has one.
\<close>

theorem recv_frame_leaves_empty_queue:
  "no_empty_queue (send_datagram toy_codec host_a [7] 2)
   \<and> queue_table (snd (recv_frame toy_codec (send_datagram toy_codec host_a [7] 2) reply_from_b)) 2
       = Some (0, [])
   \<and> \<not> no_empty_queue (snd (recv_frame toy_codec (send_datagram toy_codec host_a [7] 2) reply_from_b))"
proof -
  have a: "arp_table host_a 2 = None" "queue_table host_a 2 = None"
    by (simp_all add: toy_defs)
  have b: "no_empty_queue (send_datagram toy_codec host_a [7] 2)"
    by (simp add: send_datagram_miss [OF a] no_empty_queue_def) (simp add: toy_defs)
  have c: "queue_table (snd (recv_frame toy_codec (send_datagram toy_codec host_a [7] 2) reply_from_b)) 2
       = Some (0, [])"
    by code_simp
  from c have "\<not> no_empty_queue (snd (recv_frame toy_codec (send_datagram toy_codec host_a [7] 2) reply_from_b))"
    by (auto simp: no_empty_queue_def)
  with b c show ?thesis by simp
qed

section \<open>Expiry\<close>

text \<open>
  C5. The interface is in a state reached from its construction by any calls of its four
  methods, the clock not having wrapped, and learns a cache entry from an ARP message at
  clock value \<open>T\<close>. After ticks that add up to at most 30000 (so also at \<open>T\<close> + 29999) the
  entry is still there and \<open>send_datagram\<close> to that address is a cache hit: it queues the
  IPv4 frame. After ticks that add up to more than 30000 (the clock still not wrapping)
  the entry is gone, and so is any queue-table entry of that address, so that
  \<open>send_datagram\<close> queues a fresh ARP request and starts a new waiting queue.
\<close>

theorem cache_entry_lifetime:
  assumes "elapsed es < 2 ^ 64"
    and "s = run c (new_interface eth ip0) es"
    and "dst (header frame) = ethernet_address s \<or> dst (header frame) = ETHERNET_BROADCAST"
    and "type (header frame) = TYPE_ARP"
    and "parse_arp c (payload frame) = Some arpmsg"
    and "s2 = ticks (snd (recv_frame c s frame)) ds"
  shows "(sum_list (map unat ds) \<le> 30000 \<longrightarrow>
            arp_table s2 (sender_ip_address arpmsg) =
              Some (curr_time s, sender_ethernet_address arpmsg)
          \<and> send_datagram c s2 dgram (sender_ip_address arpmsg) =
              s2\<lparr>frame_queue := frame_queue s2 @
                   [ipv4_frame c (sender_ethernet_address arpmsg) (ethernet_address s) dgram]\<rparr>)
       \<and> (30000 < sum_list (map unat ds)
          \<and> unat (curr_time s) + sum_list (map unat ds) < 2 ^ 64 \<longrightarrow>
            arp_table s2 (sender_ip_address arpmsg) = None
          \<and> send_datagram c s2 dgram (sender_ip_address arpmsg) =
              s2\<lparr>queue_table := (queue_table s2)(sender_ip_address arpmsg \<mapsto> (curr_time s2, [dgram])),
                 frame_queue := frame_queue s2 @
                   [arp_request_frame c s (sender_ip_address arpmsg)]\<rparr>)"
proof -
  let ?ip = "sender_ip_address arpmsg"
  let ?e = "(curr_time s, sender_ethernet_address arpmsg)"
  let ?s1 = "recv_arp c s arpmsg"
  from assms(3-5) have acc: "accepts_arp c s frame arpmsg"
    by (simp add: accepts_arp_def)
  with assms(6) have s2: "s2 = ticks ?s1 ds"
    by (simp add: recv_frame_arp)
  have learnt: "arp_table ?s1 ?ip = Some ?e"
    by (simp add: recv_arp_arp_table)
  have ident: "ethernet_address s2 = ethernet_address s" "ip_address s2 = ip_address s"
    by (simp_all add: s2 ticks_simps recv_arp_identity)
  have early: "arp_table s2 ?ip = Some ?e
      \<and> send_datagram c s2 dgram ?ip =
          s2\<lparr>frame_queue := frame_queue s2 @
               [ipv4_frame c (sender_ethernet_address arpmsg) (ethernet_address s) dgram]\<rparr>"
    if "sum_list (map unat ds) \<le> 30000"
  proof -
    from that have "unat (curr_time ?s1 - fst ?e) + sum_list (map unat ds) \<le> 30000"
      by (simp add: recv_arp_curr_time)
    with learnt have hit: "arp_table s2 ?ip = Some ?e"
      unfolding s2 by (rule ticks_arp_table_keep)
    from send_datagram_hit [OF hit] hit show ?thesis
      by (simp add: ident)
  qed
  have late: "arp_table s2 ?ip = None
      \<and> send_datagram c s2 dgram ?ip =
          s2\<lparr>queue_table := (queue_table s2)(?ip \<mapsto> (curr_time s2, [dgram])),
             frame_queue := frame_queue s2 @ [arp_request_frame c s ?ip]\<rparr>"
    if big: "30000 < sum_list (map unat ds)"
      and nowrap: "unat (curr_time s) + sum_list (map unat ds) < 2 ^ 64"
  proof -
    from big have ne: "ds \<noteq> []" by auto
    from nowrap have nw: "unat (curr_time ?s1) + sum_list (map unat ds) < 2 ^ 64"
      by (simp add: recv_arp_curr_time)
    have no_cache: "arp_table s2 ?ip = None"
    proof (cases "arp_table s2 ?ip")
      case None
      then show ?thesis .
    next
      case (Some e)
      then have "arp_table ?s1 ?ip = Some e"
        unfolding s2 by (rule ticks_arp_table_mono)
      with learnt have e: "e = ?e" by simp
      from big have "unat (curr_time s) + 30000 < unat (curr_time ?s1) + sum_list (map unat ds)"
        by (simp add: recv_arp_curr_time)
      with nw have "30000 < unat (curr_time (ticks ?s1 ds) - curr_time s)"
        by (rule age_after_ticks)
      then have "30000 < curr_time s2 - fst e"
        by (simp add: e s2 word_less_nat_alt)
      with ticks_arp_table_fresh [OF ne, of ?s1 ?ip e] Some show ?thesis
        by (simp add: s2)
    qed
    have "stamp_ok s ?ip"
      unfolding assms(2) using assms(1)
      by (intro stamp_ok_run stamp_ok_new) (simp add: new_interface_def)
    then have ok1: "stamp_ok ?s1 ?ip"
      by (rule stamp_ok_recv_arp)
    have no_queue: "queue_table s2 ?ip = None"
    proof (cases "queue_table s2 ?ip")
      case None
      then show ?thesis .
    next
      case (Some e)
      then have "queue_table ?s1 ?ip = Some e"
        unfolding s2 by (rule ticks_queue_table_mono)
      with ok1 have "fst e \<le> curr_time s"
        by (simp add: stamp_ok_def recv_arp_curr_time)
      then have "unat (fst e) \<le> unat (curr_time s)"
        by (simp add: word_le_nat_alt)
      with big have "unat (fst e) + 5000 < unat (curr_time ?s1) + sum_list (map unat ds)"
        by (simp add: recv_arp_curr_time)
      with nw have "5000 < unat (curr_time (ticks ?s1 ds) - fst e)"
        by (rule age_after_ticks)
      then have "5000 < curr_time s2 - fst e"
        by (simp add: s2 word_less_nat_alt)
      with ticks_queue_table_fresh [OF ne, of ?s1 ?ip e] Some show ?thesis
        by (simp add: s2)
    qed
    from send_datagram_miss [OF no_cache no_queue] no_cache show ?thesis
      by (simp add: ident)
  qed
  from early late show ?thesis by blast
qed

theorem cache_entry_lifetime_witness:
  "arp_table (ticks (snd (recv_frame toy_codec host_a reply_from_b)) [29999]) 2 = Some (0, eth_b)
   \<and> frame_queue (send_datagram toy_codec
        (ticks (snd (recv_frame toy_codec host_a reply_from_b)) [29999]) [9] 2) =
       [ipv4_frame toy_codec eth_b eth_a [9]]
   \<and> arp_table (ticks (snd (recv_frame toy_codec host_a reply_from_b)) [29999, 2]) 2 = None
   \<and> frame_queue (send_datagram toy_codec
        (ticks (snd (recv_frame toy_codec host_a reply_from_b)) [29999, 2]) [9] 2) =
       [arp_request_frame toy_codec host_a 2]"
proof -
  have a: "elapsed ([] :: bytes event list) < 2 ^ 64"
    "host_a = run toy_codec (new_interface eth_a 1) []"
    "dst (header reply_from_b) = ethernet_address host_a \<or> dst (header reply_from_b) = ETHERNET_BROADCAST"
    "type (header reply_from_b) = TYPE_ARP"
    "parse_arp toy_codec (payload reply_from_b) = Some reply_msg"
    by (simp_all add: toy_defs)
  have b: "sum_list (map unat [29999 :: size_t]) \<le> 30000"
    "30000 < sum_list (map unat [29999, 2 :: size_t])"
    "unat (curr_time host_a) + sum_list (map unat [29999, 2 :: size_t]) < 2 ^ 64"
    by (simp_all add: toy_defs)
  have c: "sender_ip_address reply_msg = 2" "sender_ethernet_address reply_msg = eth_b"
    "curr_time host_a = 0" "ethernet_address host_a = eth_a"
    by (simp_all add: toy_defs)
  have d: "frame_queue (snd (recv_frame toy_codec host_a reply_from_b)) = []"
    by code_simp
  show ?thesis
    using cache_entry_lifetime [OF a refl, of "[29999]" "[9]"]
      cache_entry_lifetime [OF a refl, of "[29999, 2]" "[9]"] b
    by (simp add: c d ticks_simps del: ticks.simps)
qed

text \<open>
  C6. A queue-table entry carries the request time \<open>T\<close>, and only ticks follow, which
  take the clock beyond \<open>T\<close> + 5000 without wrapping (no ARP message arrives). Then the
  entry is gone, the ticks have queued no frame, and the state reached does not depend
  on the datagrams that waited: had the queue held anything else, the same state would
  have been reached, and so would the same state after any further calls. \<open>tick\<close>
  returns nothing but the state, so no error reaches a caller.
\<close>

theorem pending_entry_dropped:
  assumes "queue_table s ip = Some (T, q)"
    and "ds \<noteq> []"
    and "unat T + 5000 < unat (curr_time s) + sum_list (map unat ds)"
    and "unat (curr_time s) + sum_list (map unat ds) < 2 ^ 64"
  shows "queue_table (ticks s ds) ip = None
       \<and> frame_queue (ticks s ds) = frame_queue s
       \<and> ticks (s\<lparr>queue_table := (queue_table s)(ip \<mapsto> (T, q'))\<rparr>) ds = ticks s ds
       \<and> run c (ticks (s\<lparr>queue_table := (queue_table s)(ip \<mapsto> (T, q'))\<rparr>) ds) es =
           run c (ticks s ds) es"
proof -
  have gone: "queue_table (ticks s ds) ip = None"
  proof (cases "queue_table (ticks s ds) ip")
    case None
    then show ?thesis .
  next
    case (Some e)
    then have "queue_table s ip = Some e"
      by (rule ticks_queue_table_mono)
    with assms(1) have e: "e = (T, q)" by simp
    from assms(4,3) have "5000 < unat (curr_time (ticks s ds) - T)"
      by (rule age_after_ticks)
    then have "5000 < curr_time (ticks s ds) - fst e"
      by (simp add: e word_less_nat_alt)
    with ticks_queue_table_fresh [OF assms(2) Some] show ?thesis by simp
  qed
  let ?f = "\<lambda>k old. if k = ip then q' else old"
  have "ticks (s\<lparr>queue_table := (queue_table s)(ip \<mapsto> (T, q'))\<rparr>) ds = requeue ?f (ticks s ds)"
    by (simp add: requeue_entry [OF assms(1)] ticks_requeue)
  also have "\<dots> = ticks s ds"
    using gone by (rule requeue_absent) simp
  finally have same: "ticks (s\<lparr>queue_table := (queue_table s)(ip \<mapsto> (T, q'))\<rparr>) ds = ticks s ds" .
  from gone same show ?thesis
    by (simp add: ticks_simps)
qed

theorem pending_entry_dropped_witness:
  "queue_table host_a_waiting 2 = Some (0, [[7], [8]])
   \<and> queue_table (ticks host_a_waiting [5000]) 2 = Some (0, [[7], [8]])
   \<and> queue_table (ticks host_a_waiting [5000, 1]) 2 = None
   \<and> frame_queue (ticks host_a_waiting [5000, 1]) = frame_queue host_a_waiting
   \<and> ticks (host_a_waiting\<lparr>queue_table := (queue_table host_a_waiting)(2 \<mapsto> (0, []))\<rparr>) [5000, 1]
       = ticks host_a_waiting [5000, 1]"
proof -
  have a: "queue_table host_a_waiting 2 = Some (0, [[7], [8]])"
    by (simp add: host_a_waiting_eq)
  have b: "[5000, 1] \<noteq> ([] :: size_t list)"
    "unat (0 :: size_t) + 5000 < unat (curr_time host_a_waiting) + sum_list (map unat [5000, 1 :: size_t])"
    "unat (curr_time host_a_waiting) + sum_list (map unat [5000, 1 :: size_t]) < 2 ^ 64"
    by (simp_all add: host_a_waiting_eq) (simp_all add: toy_defs)
  have c: "queue_table (ticks host_a_waiting [5000]) 2 = Some (0, [[7], [8]])"
    by (simp add: tick_queue_table a) (simp add: host_a_waiting_eq toy_defs)
  show ?thesis
    using pending_entry_dropped [OF a b, of "[]" toy_codec "[]"] a c
    by simp
qed

end
